theory Spec2Isabelle
  imports Main "HOL-Library.AList"
begin

section \<open>Data model of the write session (class KuduSession)\<close>

text \<open>
  Java objects that the session shares between its maps, its timers and its callbacks
  (operations and batches) live in an explicit store and are named by references; the two
  hash maps are association lists read with \<open>map_of\<close>, written with \<open>AList.update\<close>
  (\<open>put\<close>) and \<open>AList.delete\<close> (\<open>remove\<close>), whose list order stands for the
  iteration order of the hash map.
\<close>

type_synonym slice = string
type_synonym oref = nat
type_synonym bref = nat

datatype flush_mode = AUTO_FLUSH_SYNC | AUTO_FLUSH_BACKGROUND | MANUAL_FLUSH

datatype external_consistency_mode = NO_CONSISTENCY | OTHER_CONSISTENCY nat

record per_row_error =
  rowIndex :: int
  detail :: string

record write_response =
  errorCode :: "int option"
  errorMessage :: string
  writeTimestamp :: "int option"
  perRowErrors :: "per_row_error list"

datatype object =
    NullObject
  | WriteResponsePB write_response
  | PerRowErrorPB per_row_error
  | OtherObject nat

datatype rpc = OperationRpc oref | BatchRpc bref

text \<open>
  A deferred, named by the expression of the source that produced it. A reference that may
  be null is a \<open>deferred option\<close>, with \<open>None\<close> for null.
\<close>

datatype deferred =
    FromResult object
  | OperationDeferred oref
  | BatchDeferred bref
  | SendRpcToTablet rpc
  | TooManyAttemptsOrTimeout oref
  | DelayedIsCreateTableDone string oref
  | LocateTablet string string
  | LookupRecovery nat
  | Group "deferred list"

datatype callback =
    BatchCallback bref
  | OpInFlightCallback slice
  | FlushRetryCallback slice bref
  | RetryRpcCB oref

datatype exception =
    NullPointerException string
  | IllegalArgumentException string
  | NonRecoverableException string
  | InvalidResponseException object
  | PleaseThrottleException string oref "deferred option"

datatype client_call =
    SendRpcToTabletCall rpc
  | LocateTabletCall string string
  | DelayedIsCreateTableDoneCall string oref
  | UpdateLastPropagatedTimestampCall int

record operation =
  table :: string
  key :: string
  attempt :: int
  timeoutMillis :: int
  externalConsistencyMode :: external_consistency_mode
  tablet :: "slice option"

record batch =
  batchTable :: string
  ops :: "oref list"
  batchConsistencyMode :: external_consistency_mode
  batchTimeoutMillis :: int
  deadlineResets :: nat

text \<open>
  The collaborators of class KuduClient that the session only consults are parameters.
  \<open>getTablet\<close> gives the id of the cached tablet of a table and row key (\<open>None\<close> for
  null); \<open>handleLookupExceptions\<close> gives null (\<open>None\<close>) when the lookup is to be
  retried.
\<close>

record client =
  cannotRetryRequest :: "operation \<Rightarrow> bool"
  getTablet :: "string \<Rightarrow> string \<Rightarrow> slice option"
  isTableNotServed :: "string \<Rightarrow> bool"
  handleLookupExceptions :: "operation \<Rightarrow> object \<Rightarrow> deferred option"

text \<open>
  The fields of the session, the object store, and the effects the session has on its
  collaborators: callbacks registered on deferreds (\<open>addBoth\<close>, \<open>addBothDeferring\<close>),
  calls made to the client, deferreds fired by the session (\<open>Operation.callback\<close>), and
  the timer (\<open>newTimeout\<close>, \<open>stop\<close>).
\<close>

record session =
  interval :: int
  mutationBufferSpace :: int
  flushMode :: flush_mode
  consistencyMode :: external_consistency_mode
  currentTimeout :: int
  operations :: "(slice \<times> bref) list"
  operationsInFlight :: "(slice \<times> deferred) list"
  operationsInLookup :: "oref list"
  opStore :: "oref \<Rightarrow> operation"
  batchStore :: "bref \<Rightarrow> batch"
  nextBatch :: bref
  callbacks :: "(deferred \<times> callback) list"
  clientCalls :: "client_call list"
  fired :: "(deferred \<times> object) list"
  timeouts :: "(slice \<times> bref \<times> int) list"
  timerStopped :: bool

section \<open>Operations of the session\<close>

text \<open>
  Modelled from the spec: class Operation is not part of the sources. An operation carries
  its table, row key, attempt counter, timeout, consistency mode and resolved tablet; the
  setters below write one field of the stored operation, and \<open>attempt++\<close> adds one to
  the counter.
\<close>

definition Operation_setTimeoutMillis :: "session \<Rightarrow> oref \<Rightarrow> int \<Rightarrow> session" where
  "Operation_setTimeoutMillis s operation t =
     s\<lparr>opStore := (opStore s)(operation := (opStore s operation)\<lparr>timeoutMillis := t\<rparr>)\<rparr>"

definition Operation_setExternalConsistencyMode ::
  "session \<Rightarrow> oref \<Rightarrow> external_consistency_mode \<Rightarrow> session" where
  "Operation_setExternalConsistencyMode s operation m =
     s\<lparr>opStore := (opStore s)
          (operation := (opStore s operation)\<lparr>externalConsistencyMode := m\<rparr>)\<rparr>"

definition Operation_setTablet :: "session \<Rightarrow> oref \<Rightarrow> slice \<Rightarrow> session" where
  "Operation_setTablet s operation tabletId =
     s\<lparr>opStore := (opStore s)(operation := (opStore s operation)\<lparr>tablet := Some tabletId\<rparr>)\<rparr>"

definition Operation_incrementAttempt :: "session \<Rightarrow> oref \<Rightarrow> session" where
  "Operation_incrementAttempt s operation =
     s\<lparr>opStore := (opStore s)
          (operation := (opStore s operation)\<lparr>attempt := attempt (opStore s operation) + 1\<rparr>)\<rparr>"

definition bufferTooBig :: string where
  "bufferTooBig = ''MANUAL_FLUSH is enabled but the buffer is too big''"

definition pleaseThrottle :: string where
  "pleaseThrottle = ''The RPC cannot be buffered because the current '' @
                    ''buffer is full and the previous buffer hasn't been flushed yet''"

text \<open>
  Modelled from the spec: the futures library (class Deferred) is not part of the sources.
  \<open>addBoth\<close> and \<open>addBothDeferring\<close> chain a continuation on a deferred and return
  that deferred; the session records the registrations in the order they are made.
\<close>

definition addBoth :: "deferred \<Rightarrow> callback \<Rightarrow> session \<Rightarrow> session" where
  "addBoth d cb s = s\<lparr>callbacks := callbacks s @ [(d, cb)]\<rparr>"

text \<open>
  Modelled from the spec: \<open>KuduClient.sendRpcToTablet\<close>, the dispatcher, is not part of
  the sources. It takes an operation or a batch and returns the future of the response;
  the session records the call. The other calls to the client that return a deferred
  (\<open>tooManyAttemptsOrTimeout\<close>, \<open>locateTablet\<close>, \<open>delayedIsCreateTableDone\<close>) are
  named by their constructor of \<open>deferred\<close> in the same way.
\<close>

definition sendRpcToTablet :: "rpc \<Rightarrow> session \<Rightarrow> deferred \<times> session" where
  "sendRpcToTablet r s =
     (SendRpcToTablet r, s\<lparr>clientCalls := clientCalls s @ [SendRpcToTabletCall r]\<rparr>)"

definition setFlushMode :: "session \<Rightarrow> flush_mode \<Rightarrow> (exception + unit) \<times> session" where
  "setFlushMode s m =
     (if operations s \<noteq> [] \<or> operationsInFlight s \<noteq> [] \<or> operationsInLookup s \<noteq> []
      then (Inl (IllegalArgumentException
                   ''Cannot change flush mode when writes are buffered''), s)
      else (Inr (), s\<lparr>flushMode := m\<rparr>))"

definition setExternalConsistencyMode ::
  "session \<Rightarrow> external_consistency_mode \<Rightarrow> (exception + unit) \<times> session" where
  "setExternalConsistencyMode s m =
     (if operations s \<noteq> []
      then (Inl (IllegalArgumentException
                   ''Cannot change consistency mode when writes are buffered''), s)
      else (Inr (), s\<lparr>consistencyMode := m\<rparr>))"

definition setMutationBufferSpace :: "session \<Rightarrow> int \<Rightarrow> (exception + unit) \<times> session" where
  "setMutationBufferSpace s sz =
     (if operations s \<noteq> []
      then (Inl (IllegalArgumentException
                   ''Cannot change the buffer size when operations are buffered''), s)
      else (Inr (), s\<lparr>mutationBufferSpace := sz\<rparr>))"

definition setFlushInterval :: "session \<Rightarrow> int \<Rightarrow> session" where
  "setFlushInterval s i = s\<lparr>interval := i\<rparr>"

definition setTimeoutMillis :: "session \<Rightarrow> int \<Rightarrow> session" where
  "setTimeoutMillis s t = s\<lparr>currentTimeout := t\<rparr>"

definition hasPendingOperations :: "session \<Rightarrow> bool" where
  "hasPendingOperations s = False"

text \<open>
  \<open>flushTablet\<close>, the whole body under the session lock. The Java \<open>assert\<close>s are not
  checked at run time and are left out.
\<close>

definition flushTablet :: "session \<Rightarrow> slice \<Rightarrow> bref \<Rightarrow> (exception + deferred) \<times> session" where
  "flushTablet s tabl expectedBatch =
     (if map_of (operations s) tabl \<noteq> Some expectedBatch
      then (Inr (FromResult NullObject), s)
      else (case map_of (operationsInFlight s) tabl of
              Some inflight \<Rightarrow>
                (Inr inflight, addBoth inflight (FlushRetryCallback tabl expectedBatch) s)
            | None \<Rightarrow>
                (case map_of (operations s) tabl of
                   None \<Rightarrow> (Inr (FromResult NullObject), s)
                 | Some b \<Rightarrow>
                     let s1 = s\<lparr>operations := AList.delete tabl (operations s)\<rparr>;
                         batchDeferred = BatchDeferred b;
                         s2 = addBoth batchDeferred (OpInFlightCallback tabl) s1;
                         s3 = s2\<lparr>operationsInFlight :=
                                   AList.update tabl batchDeferred (operationsInFlight s2)\<rparr>;
                         s4 = (if currentTimeout s3 \<noteq> 0
                               then s3\<lparr>batchStore := (batchStore s3)
                                      (b := (batchStore s3 b)
                                         \<lparr>batchTimeoutMillis := currentTimeout s3,
                                          deadlineResets := Suc (deadlineResets (batchStore s3 b))\<rparr>)\<rparr>
                               else s3);
                         (d, s5) = sendRpcToTablet (BatchRpc b) s4
                     in (Inr d, s5))))"

definition FlushRetryCallback_call ::
  "session \<Rightarrow> slice \<Rightarrow> bref \<Rightarrow> object \<Rightarrow> (exception + deferred) \<times> session" where
  "FlushRetryCallback_call s tabl expectedBatch obj = flushTablet s tabl expectedBatch"

definition OpInFlightCallback_call :: "session \<Rightarrow> slice \<Rightarrow> object \<Rightarrow> object \<times> session" where
  "OpInFlightCallback_call s tabl obj =
     (obj, s\<lparr>operationsInFlight := AList.delete tabl (operationsInFlight s)\<rparr>)"

definition FlusherTask_run :: "session \<Rightarrow> slice \<Rightarrow> bref \<Rightarrow> session" where
  "FlusherTask_run s tabletSlice expectedBatch = snd (flushTablet s tabletSlice expectedBatch)"

definition scheduleNextPeriodicFlush :: "session \<Rightarrow> slice \<Rightarrow> bref \<Rightarrow> session" where
  "scheduleNextPeriodicFlush s tabl b = s\<lparr>timeouts := timeouts s @ [(tabl, b, interval s)]\<rparr>"

definition addBatchCallbacks :: "session \<Rightarrow> bref \<Rightarrow> session" where
  "addBatchCallbacks s request = addBoth (BatchDeferred request) (BatchCallback request) s"

text \<open>
  The part of \<open>addToBuffer\<close> from \<open>if (batch == null)\<close> on: a fresh batch is
  allocated when there is none, the operation is appended, and in background mode the
  first operation of a batch schedules its flush.
\<close>

definition addToBatch :: "session \<Rightarrow> slice \<Rightarrow> oref \<Rightarrow> bref option \<Rightarrow> session" where
  "addToBatch s tabl operation batch0 =
     (let (b, s1, scheduleFlush) =
            (case batch0 of
               None \<Rightarrow>
                 let b = nextBatch s;
                     s' = s\<lparr>nextBatch := Suc b,
                            batchStore := (batchStore s)
                              (b := \<lparr>batchTable = table (opStore s operation), ops = [],
                                     batchConsistencyMode = consistencyMode s,
                                     batchTimeoutMillis = 0, deadlineResets = 0\<rparr>),
                            operations := AList.update tabl b (operations s)\<rparr>
                 in (b, addBatchCallbacks s' b, True)
             | Some b \<Rightarrow> (b, s, False));
          s2 = s1\<lparr>batchStore := (batchStore s1)
                     (b := (batchStore s1 b)\<lparr>ops := ops (batchStore s1 b) @ [operation]\<rparr>)\<rparr>
      in if flushMode s2 = AUTO_FLUSH_BACKGROUND \<and> scheduleFlush
         then scheduleNextPeriodicFlush s2 tabl b
         else s2)"

definition addToBuffer :: "session \<Rightarrow> slice \<Rightarrow> oref \<Rightarrow> (exception + deferred) \<times> session" where
  "addToBuffer s tabl operation =
     (case map_of (operations s) tabl of
        None \<Rightarrow> (Inr (OperationDeferred operation), addToBatch s tabl operation None)
      | Some b \<Rightarrow>
          if int (length (ops (batchStore s b))) + 1 > mutationBufferSpace s
          then (if flushMode s = MANUAL_FLUSH
                then (Inl (NonRecoverableException bufferTooBig), s)
                else (case flushTablet s tabl b of
                        (Inl e, s1) \<Rightarrow> (Inl e, s1)
                      | (Inr d, s1) \<Rightarrow>
                          if map_of (operations s1) tabl \<noteq> None
                          then (Inl (PleaseThrottleException pleaseThrottle operation
                                       (map_of (operationsInFlight s1) tabl)), s1)
                          else (Inr (OperationDeferred operation),
                                addToBatch s1 tabl operation None)))
          else (Inr (OperationDeferred operation), addToBatch s tabl operation (Some b)))"

text \<open>
  \<open>apply\<close>; its argument is \<open>None\<close> for the null reference. The retry callback is only
  registered here (on the deferred of the lookup), not run.
\<close>

definition apply_operation ::
  "client \<Rightarrow> session \<Rightarrow> oref option \<Rightarrow> (exception + deferred) \<times> session" where
  "apply_operation c s operation0 =
     (case operation0 of
        None \<Rightarrow> (Inl (NullPointerException ''Cannot apply a null operation''), s)
      | Some operation \<Rightarrow>
          if cannotRetryRequest c (opStore s operation)
          then (Inr (TooManyAttemptsOrTimeout operation), s)
          else if flushMode s = AUTO_FLUSH_SYNC
          then (let s1 = (if currentTimeout s \<noteq> 0
                          then Operation_setTimeoutMillis s operation (currentTimeout s)
                          else s);
                    s2 = Operation_setExternalConsistencyMode s1 operation (consistencyMode s1);
                    (d, s3) = sendRpcToTablet (OperationRpc operation) s2
                in (Inr d, s3))
          else (let tbl = table (opStore s operation);
                    rowkey = key (opStore s operation)
                in case getTablet c tbl rowkey of
                     Some tabletId \<Rightarrow>
                       addToBuffer (Operation_setTablet s operation tabletId) tabletId operation
                   | None \<Rightarrow>
                       let s1 = s\<lparr>operationsInLookup := operationsInLookup s @ [operation]\<rparr>;
                           s2 = Operation_incrementAttempt s1 operation
                       in if isTableNotServed c tbl
                          then (Inr (DelayedIsCreateTableDone tbl operation),
                                addBoth (DelayedIsCreateTableDone tbl operation)
                                  (RetryRpcCB operation)
                                  (s2\<lparr>clientCalls := clientCalls s2 @
                                        [DelayedIsCreateTableDoneCall tbl operation]\<rparr>))
                          else (Inr (LocateTablet tbl rowkey),
                                addBoth (LocateTablet tbl rowkey) (RetryRpcCB operation)
                                  (s2\<lparr>clientCalls := clientCalls s2 @
                                        [LocateTabletCall tbl rowkey]\<rparr>))))"

text \<open>
  The retry continuation \<open>RetryRpcCB.call\<close>. \<open>ArrayList.remove(Object)\<close> removes the
  first occurrence and tells whether there was one. Chaining the continuation on the
  deferred of a throttle exception dereferences it, which fails on null.
\<close>

definition RetryRpcCB_call ::
  "client \<Rightarrow> session \<Rightarrow> oref \<Rightarrow> object \<Rightarrow> (exception + deferred) \<times> session" where
  "RetryRpcCB_call c s operation arg =
     (if operation \<notin> set (operationsInLookup s)
      then (Inr (FromResult NullObject), s)
      else (let s1 = s\<lparr>operationsInLookup := remove1 operation (operationsInLookup s)\<rparr>;
                d = handleLookupExceptions c (opStore s1 operation) arg
            in case d of
                 None \<Rightarrow>
                   (case apply_operation c s1 (Some operation) of
                      (Inl (PleaseThrottleException msg rpc0 pd), s2) \<Rightarrow>
                        (let s3 = s2\<lparr>operationsInLookup := operationsInLookup s2 @ [operation]\<rparr>
                         in case pd of
                              None \<Rightarrow> (Inl (NullPointerException []), s3)
                            | Some p \<Rightarrow> (Inr p, addBoth p (RetryRpcCB operation) s3))
                    | (Inl e, s2) \<Rightarrow> (Inl e, s2)
                    | (Inr r, s2) \<Rightarrow> (Inr r, s2))
               | Some d' \<Rightarrow> (Inr d', s1)))"

text \<open>
  The completion callback of a batch, \<open>BatchCallback.call\<close>. The loop over the batch's
  operations carries the row number \<open>i\<close> and \<open>errorsIndex\<close>; both reads of the error
  list are in range under the loop's guard.
\<close>

fun perRowLoop ::
  "per_row_error list \<Rightarrow> oref list \<Rightarrow> int \<Rightarrow> nat \<Rightarrow> (deferred \<times> object) list" where
  "perRowLoop errs [] i errorsIndex = []"
| "perRowLoop errs (operation # rest) i errorsIndex =
     (if int errorsIndex + 1 < int (length errs) \<and> rowIndex (errs ! errorsIndex) = i
      then (OperationDeferred operation, PerRowErrorPB (errs ! (errorsIndex + 1)))
             # perRowLoop errs rest (i + 1) (errorsIndex + 1)
      else (OperationDeferred operation, NullObject)
             # perRowLoop errs rest (i + 1) errorsIndex)"

definition BatchCallback_call ::
  "session \<Rightarrow> bref \<Rightarrow> object \<Rightarrow> (exception + object) \<times> session" where
  "BatchCallback_call s request response =
     (case response of
        WriteResponsePB resp \<Rightarrow>
          if errorCode resp \<noteq> None
          then (Inl (NonRecoverableException (errorMessage resp)), s)
          else (let s1 = (case writeTimestamp resp of
                            None \<Rightarrow> s
                          | Some ts \<Rightarrow>
                              s\<lparr>clientCalls := clientCalls s @
                                  [UpdateLastPropagatedTimestampCall ts]\<rparr>);
                    s2 = s1\<lparr>fired := fired s1 @
                               perRowLoop (perRowErrors resp) (ops (batchStore s1 request)) 0 0\<rparr>
                in (Inr (WriteResponsePB resp), s2))
      | _ \<Rightarrow> (Inl (InvalidResponseException response), s))"

text \<open>
  \<open>flush\<close> in its two parts: the synchronized block, which copies the map of batches,
  empties the list of operations in lookup and sends each of them; and the loop after the
  lock is released, which flushes every copied entry and groups the deferreds. The result
  of \<open>flush\<close> and of \<open>close\<close> is a reference that may be null, as their documentation
  has it.
\<close>

fun sendAll :: "session \<Rightarrow> deferred list \<Rightarrow> oref list \<Rightarrow> deferred list \<times> session" where
  "sendAll s d [] = (d, s)"
| "sendAll s d (operation # rest) =
     (case sendRpcToTablet (OperationRpc operation) s of
        (x, s') \<Rightarrow> sendAll s' (d @ [x]) rest)"

definition flush_synchronized ::
  "session \<Rightarrow> (deferred list \<times> (slice \<times> bref) list) \<times> session" where
  "flush_synchronized s =
     (let copyOfOps = operations s;
          copyOfOpsInLookup = operationsInLookup s;
          s1 = s\<lparr>operationsInLookup := []\<rparr>;
          (d, s2) = sendAll s1 [] copyOfOpsInLookup
      in ((d, copyOfOps), s2))"

fun flushEntries ::
  "session \<Rightarrow> deferred list \<Rightarrow> (slice \<times> bref) list \<Rightarrow> (exception + deferred list) \<times> session" where
  "flushEntries s d [] = (Inr d, s)"
| "flushEntries s d ((k, v) # rest) =
     (case flushTablet s k v of
        (Inl e, s') \<Rightarrow> (Inl e, s')
      | (Inr x, s') \<Rightarrow> flushEntries s' (d @ [x]) rest)"

definition flush_unlocked ::
  "session \<Rightarrow> deferred list \<Rightarrow> (slice \<times> bref) list \<Rightarrow>
   (exception + deferred option) \<times> session" where
  "flush_unlocked s d copyOfOps =
     (case flushEntries s d copyOfOps of
        (Inl e, s') \<Rightarrow> (Inl e, s')
      | (Inr d', s') \<Rightarrow> (Inr (Some (Group d')), s'))"

definition flush :: "session \<Rightarrow> (exception + deferred option) \<times> session" where
  "flush s = (case flush_synchronized s of ((d, copyOfOps), s1) \<Rightarrow> flush_unlocked s1 d copyOfOps)"

definition close :: "session \<Rightarrow> (exception + deferred option) \<times> session" where
  "close s = flush (s\<lparr>timerStopped := True\<rparr>)"

text \<open>
  Modelled from the spec: the futures library (class Deferred) is not part of the sources.
  A future made by \<open>fromResult\<close> is complete from the start; the group of a collection
  of futures completes when all collected futures have completed; every other future
  completes when its producer says so, which the parameter \<open>fin\<close> tells.
\<close>

fun completed :: "(deferred \<Rightarrow> bool) \<Rightarrow> deferred \<Rightarrow> bool" where
  "completed fin (FromResult x) = True"
| "completed fin (Group ds) = list_all (completed fin) ds"
| "completed fin d = fin d"

section \<open>Example sessions\<close>

text \<open>
  The session as its constructor leaves it, over a store in which every reference holds
  the same fresh operation or batch, and the sessions of the scenarios used below.
\<close>

definition someOperation :: operation where
  "someOperation = \<lparr>table = ''tbl'', key = ''row'', attempt = 0, timeoutMillis = 0,
     externalConsistencyMode = NO_CONSISTENCY, tablet = None\<rparr>"

definition someBatch :: batch where
  "someBatch = \<lparr>batchTable = ''tbl'', ops = [], batchConsistencyMode = NO_CONSISTENCY,
     batchTimeoutMillis = 0, deadlineResets = 0\<rparr>"

definition KuduSession_new :: session where
  "KuduSession_new = \<lparr>interval = 1000, mutationBufferSpace = 1000,
     flushMode = AUTO_FLUSH_SYNC, consistencyMode = NO_CONSISTENCY, currentTimeout = 0,
     operations = [], operationsInFlight = [], operationsInLookup = [],
     opStore = (\<lambda>_. someOperation), batchStore = (\<lambda>_. someBatch), nextBatch = 0,
     callbacks = [], clientCalls = [], fired = [], timeouts = [], timerStopped = False\<rparr>"

text \<open>A client whose cache knows tablet \<open>T\<close> for every row, and one whose cache is
  empty. Either gives up on an operation that has had more than ten attempts.\<close>

definition client_cached :: client where
  "client_cached = \<lparr>cannotRetryRequest = (\<lambda>operation. 10 < attempt operation),
     getTablet = (\<lambda>_ _. Some ''T''), isTableNotServed = (\<lambda>_. False),
     handleLookupExceptions = (\<lambda>_ _. None)\<rparr>"

definition client_uncached :: client where
  "client_uncached = \<lparr>cannotRetryRequest = (\<lambda>operation. 10 < attempt operation),
     getTablet = (\<lambda>_ _. None), isTableNotServed = (\<lambda>_. False),
     handleLookupExceptions = (\<lambda>_ _. None)\<rparr>"

text \<open>Background mode, two operations per batch: batch 0 with operations 0 and 1 is in
  flight for tablet \<open>T\<close>, batch 1 with operations 2 and 3 accumulates.\<close>

definition session_blocked :: session where
  "session_blocked = KuduSession_new\<lparr>mutationBufferSpace := 2,
     flushMode := AUTO_FLUSH_BACKGROUND,
     operations := [(''T'', 1)],
     operationsInFlight := [(''T'', BatchDeferred 0)],
     batchStore := (\<lambda>_. someBatch)(0 := someBatch\<lparr>ops := [0, 1]\<rparr>,
                                        1 := someBatch\<lparr>ops := [2, 3]\<rparr>),
     nextBatch := 2\<rparr>"

text \<open>Manual mode, three operations per batch: batch 0 for tablet \<open>T\<close> holds operations
  1, 2 and 3.\<close>

definition session_manual_full :: session where
  "session_manual_full = KuduSession_new\<lparr>mutationBufferSpace := 3,
     flushMode := MANUAL_FLUSH,
     operations := [(''T'', 0)],
     batchStore := (\<lambda>_. someBatch)(0 := someBatch\<lparr>ops := [1, 2, 3]\<rparr>),
     nextBatch := 1\<rparr>"

text \<open>Background mode: batch 0 with operation 0 accumulates for tablet \<open>T\<close>, nothing is
  in flight.\<close>

definition session_accumulating :: session where
  "session_accumulating = KuduSession_new\<lparr>flushMode := AUTO_FLUSH_BACKGROUND,
     operations := [(''T'', 0)],
     batchStore := (\<lambda>_. someBatch)(0 := someBatch\<lparr>ops := [0]\<rparr>),
     nextBatch := 1\<rparr>"

text \<open>Nothing accumulates and nothing is in lookup, but batch 0 is still in flight.\<close>

definition session_in_flight_only :: session where
  "session_in_flight_only = KuduSession_new\<lparr>flushMode := AUTO_FLUSH_BACKGROUND,
     operationsInFlight := [(''T'', BatchDeferred 0)],
     batchStore := (\<lambda>_. someBatch)(0 := someBatch\<lparr>ops := [0, 1]\<rparr>),
     nextBatch := 1\<rparr>"

text \<open>Background mode: operation 7, after nine attempts, waits for its tablet.\<close>

definition session_lookup :: session where
  "session_lookup = KuduSession_new\<lparr>flushMode := AUTO_FLUSH_BACKGROUND,
     operationsInLookup := [7],
     opStore := (\<lambda>_. someOperation)(7 := someOperation\<lparr>attempt := 9\<rparr>)\<rparr>"

text \<open>A batch of three operations and the answer of the server: no top-level error, one
  per-row error, for row 1.\<close>

definition session_three_ops :: session where
  "session_three_ops = KuduSession_new\<lparr>flushMode := AUTO_FLUSH_BACKGROUND,
     operationsInFlight := [(''T'', BatchDeferred 0)],
     batchStore := (\<lambda>_. someBatch)(0 := someBatch\<lparr>ops := [0, 1, 2]\<rparr>),
     nextBatch := 1\<rparr>"

text \<open>Background mode: batch 0 is in flight for tablet \<open>T\<close>, batch 1 accumulates for
  \<open>T\<close> and batch 2 for tablet \<open>U\<close>, and operation 9 waits for its tablet.\<close>

definition session_mixed :: session where
  "session_mixed = KuduSession_new\<lparr>flushMode := AUTO_FLUSH_BACKGROUND,
     operations := [(''T'', 1), (''U'', 2)],
     operationsInFlight := [(''T'', BatchDeferred 0)],
     operationsInLookup := [9],
     batchStore := (\<lambda>_. someBatch)(0 := someBatch\<lparr>ops := [0, 1]\<rparr>,
                                        1 := someBatch\<lparr>ops := [2, 3]\<rparr>,
                                        2 := someBatch\<lparr>ops := [4]\<rparr>),
     nextBatch := 3\<rparr>"

definition errorX :: per_row_error where
  "errorX = \<lparr>rowIndex = 1, detail = ''X''\<rparr>"

definition response_row1 :: write_response where
  "response_row1 = \<lparr>errorCode = None, errorMessage = [], writeTimestamp = None,
     perRowErrors = [errorX]\<rparr>"

text \<open>The answer of the server with per-row errors for rows 0 and 1.\<close>

definition errorA :: per_row_error where
  "errorA = \<lparr>rowIndex = 0, detail = ''A''\<rparr>"

definition errorB :: per_row_error where
  "errorB = \<lparr>rowIndex = 1, detail = ''B''\<rparr>"

definition response_rows01 :: write_response where
  "response_rows01 = \<lparr>errorCode = None, errorMessage = [], writeTimestamp = None,
     perRowErrors = [errorA, errorB]\<rparr>"

section \<open>Facts about \<open>flushTablet\<close> and the loop of \<open>flush\<close>\<close>

lemmas example_defs = KuduSession_new_def someOperation_def someBatch_def

lemma flushTablet_blocked:
  "map_of (operations s) t = Some b \<Longrightarrow> map_of (operationsInFlight s) t = Some d \<Longrightarrow>
   flushTablet s t b = (Inr d, s\<lparr>callbacks := callbacks s @ [(d, FlushRetryCallback t b)]\<rparr>)"
  by (simp add: flushTablet_def addBoth_def)

lemma flushTablet_dispatch:
  "map_of (operations s) t = Some b \<Longrightarrow> map_of (operationsInFlight s) t = None \<Longrightarrow>
   fst (flushTablet s t b) = Inr (SendRpcToTablet (BatchRpc b)) \<and>
   operations (snd (flushTablet s t b)) = AList.delete t (operations s) \<and>
   operationsInFlight (snd (flushTablet s t b)) =
     AList.update t (BatchDeferred b) (operationsInFlight s) \<and>
   clientCalls (snd (flushTablet s t b)) = clientCalls s @ [SendRpcToTabletCall (BatchRpc b)]"
  by (simp add: flushTablet_def addBoth_def sendRpcToTablet_def Let_def)

lemma flushTablet_inflight_cases:
  "operationsInFlight (snd (flushTablet s t b)) = operationsInFlight s \<or>
   (map_of (operations s) t = Some b \<and> map_of (operationsInFlight s) t = None \<and>
    operationsInFlight (snd (flushTablet s t b)) =
      AList.update t (BatchDeferred b) (operationsInFlight s))"
  by (simp add: flushTablet_def addBoth_def sendRpcToTablet_def Let_def split: option.splits)

lemma flushTablet_frame:
  "t' \<noteq> t \<Longrightarrow>
   map_of (operations (snd (flushTablet s t b))) t' = map_of (operations s) t' \<and>
   map_of (operationsInFlight (snd (flushTablet s t b))) t' = map_of (operationsInFlight s) t'"
  by (simp add: flushTablet_def addBoth_def sendRpcToTablet_def Let_def update_conv'
      split: option.splits)

lemma flushTablet_future:
  "fst (flushTablet s t b) =
     Inr (if map_of (operations s) t \<noteq> Some b then FromResult NullObject
          else case map_of (operationsInFlight s) t of
                 Some x \<Rightarrow> x | None \<Rightarrow> SendRpcToTablet (BatchRpc b))"
  by (simp add: flushTablet_def addBoth_def sendRpcToTablet_def Let_def split: option.splits)

lemma flushTablet_lookup: "operationsInLookup (snd (flushTablet s t b)) = operationsInLookup s"
  by (simp add: flushTablet_def addBoth_def sendRpcToTablet_def Let_def split: option.splits)

lemma flushTablet_calls:
  "clientCalls (snd (flushTablet s t b)) =
     clientCalls s @
       (if map_of (operations s) t = Some b \<and> map_of (operationsInFlight s) t = None
        then [SendRpcToTabletCall (BatchRpc b)] else [])"
  by (simp add: flushTablet_def addBoth_def sendRpcToTablet_def Let_def split: option.splits)

lemma flushTablet_operations:
  "map_of (operations (snd (flushTablet s t b))) t =
     (if map_of (operations s) t = Some b \<and> map_of (operationsInFlight s) t = None
      then None else map_of (operations s) t)"
  by (simp add: flushTablet_def addBoth_def sendRpcToTablet_def Let_def delete_conv'
      split: option.splits)

lemma flushTablet_callbacks_mono:
  "set (callbacks s) \<subseteq> set (callbacks (snd (flushTablet s t b)))"
  by (auto simp: flushTablet_def addBoth_def sendRpcToTablet_def Let_def split: option.splits)

lemma flushTablet_returns: "\<exists>x s'. flushTablet s t b = (Inr x, s')"
  using flushTablet_future[of s t b] by (cases "flushTablet s t b") auto

text \<open>
  The keys of the map of accumulating batches stay distinct, as those of a hash map are.
\<close>

lemma flushTablet_operations_distinct:
  "distinct (map fst (operations s)) \<Longrightarrow>
   distinct (map fst (operations (snd (flushTablet s t b))))"
  by (simp add: flushTablet_def addBoth_def sendRpcToTablet_def Let_def distinct_delete
      split: option.splits)

lemma addToBatch_operations_distinct:
  "distinct (map fst (operations s)) \<Longrightarrow>
   distinct (map fst (operations (addToBatch s t r b0)))"
  by (simp add: addToBatch_def addBatchCallbacks_def addBoth_def scheduleNextPeriodicFlush_def
      Let_def distinct_update split: option.splits)

lemma addToBuffer_operations_distinct:
  "distinct (map fst (operations s)) \<Longrightarrow>
   distinct (map fst (operations (snd (addToBuffer s t r))))"
proof -
  assume d: "distinct (map fst (operations s))"
  show ?thesis
  proof (cases "map_of (operations s) t")
    case None
    then show ?thesis using d by (simp add: addToBuffer_def addToBatch_operations_distinct)
  next
    case (Some b)
    obtain x s1 where ft: "flushTablet s t b = (Inr x, s1)"
      using flushTablet_returns by blast
    have "distinct (map fst (operations s1))"
      using flushTablet_operations_distinct[OF d, of t b] ft by simp
    then show ?thesis
      using d Some ft by (simp add: addToBuffer_def addToBatch_operations_distinct)
  qed
qed

lemma apply_operation_operations_distinct:
  "distinct (map fst (operations s)) \<Longrightarrow>
   distinct (map fst (operations (snd (apply_operation c s r0))))"
proof -
  assume d: "distinct (map fst (operations s))"
  have st: "\<And>t r. distinct (map fst (operations (Operation_setTablet s r t)))"
    using d by (simp add: Operation_setTablet_def)
  show ?thesis
    using d st
    by (auto simp: apply_operation_def addToBuffer_operations_distinct sendRpcToTablet_def
        Operation_setTimeoutMillis_def Operation_setExternalConsistencyMode_def
        Operation_incrementAttempt_def addBoth_def Let_def split: option.splits)
qed

lemma sendAll_eq:
  "sendAll s d rs =
     (d @ map (\<lambda>r. SendRpcToTablet (OperationRpc r)) rs,
      s\<lparr>clientCalls := clientCalls s @ map (\<lambda>r. SendRpcToTabletCall (OperationRpc r)) rs\<rparr>)"
  by (induction rs arbitrary: s d) (simp_all add: sendRpcToTablet_def)

lemma flush_synchronized_eq:
  "flush_synchronized s =
     ((map (\<lambda>r. SendRpcToTablet (OperationRpc r)) (operationsInLookup s), operations s),
      s\<lparr>operationsInLookup := [],
        clientCalls := clientCalls s @
          map (\<lambda>r. SendRpcToTabletCall (OperationRpc r)) (operationsInLookup s)\<rparr>)"
  by (simp add: flush_synchronized_def sendAll_eq Let_def)

text \<open>
  The loop of \<open>flush\<close> over entries with distinct keys: a call of \<open>flushTablet\<close> touches
  the two maps at its own tablet only, so every entry is treated as it would have been in
  the state before the loop.
\<close>

lemma flushEntries_futures:
  "distinct (map fst M) \<Longrightarrow>
   fst (flushEntries s d M) =
     Inr (d @ map (\<lambda>(t, b). if map_of (operations s) t \<noteq> Some b then FromResult NullObject
                           else case map_of (operationsInFlight s) t of
                                  Some x \<Rightarrow> x | None \<Rightarrow> SendRpcToTablet (BatchRpc b)) M)"
proof (induction M arbitrary: s d)
  case Nil
  then show ?case by simp
next
  case (Cons e M)
  obtain t b where e: "e = (t, b)" by (cases e)
  obtain x s' where ft: "flushTablet s t b = (Inr x, s')"
    using flushTablet_returns by blast
  have x: "x = (if map_of (operations s) t \<noteq> Some b then FromResult NullObject
          else case map_of (operationsInFlight s) t of
                 Some x \<Rightarrow> x | None \<Rightarrow> SendRpcToTablet (BatchRpc b))"
    using flushTablet_future[of s t b] ft by simp
  have s': "s' = snd (flushTablet s t b)" using ft by simp
  have dM: "distinct (map fst M)" and tM: "t \<notin> fst ` set M"
    using Cons.prems e by auto
  have same: "\<And>t' b'. (t', b') \<in> set M \<Longrightarrow>
      map_of (operations s') t' = map_of (operations s) t' \<and>
      map_of (operationsInFlight s') t' = map_of (operationsInFlight s) t'"
  proof -
    fix t' b' assume "(t', b') \<in> set M"
    then have "t' \<noteq> t" using tM by force
    then show "map_of (operations s') t' = map_of (operations s) t' \<and>
      map_of (operationsInFlight s') t' = map_of (operationsInFlight s) t'"
      unfolding s' by (rule flushTablet_frame)
  qed
  have "fst (flushEntries s d (e # M)) = fst (flushEntries s' (d @ [x]) M)"
    by (simp add: e ft)
  also have "\<dots> = Inr ((d @ [x]) @
      map (\<lambda>(t, b). if map_of (operations s') t \<noteq> Some b then FromResult NullObject
                    else case map_of (operationsInFlight s') t of
                           Some x \<Rightarrow> x | None \<Rightarrow> SendRpcToTablet (BatchRpc b)) M)"
    by (rule Cons.IH[OF dM])
  also have "map (\<lambda>(t, b). if map_of (operations s') t \<noteq> Some b then FromResult NullObject
                    else case map_of (operationsInFlight s') t of
                           Some x \<Rightarrow> x | None \<Rightarrow> SendRpcToTablet (BatchRpc b)) M
     = map (\<lambda>(t, b). if map_of (operations s) t \<noteq> Some b then FromResult NullObject
                    else case map_of (operationsInFlight s) t of
                           Some x \<Rightarrow> x | None \<Rightarrow> SendRpcToTablet (BatchRpc b)) M"
    by (rule map_cong) (use same in auto)
  finally show ?case by (simp add: e x)
qed

lemma flushEntries_returns: "\<exists>ds. fst (flushEntries s d M) = Inr ds"
proof (induction M arbitrary: s d)
  case Nil
  then show ?case by simp
next
  case (Cons e M)
  obtain t b where e: "e = (t, b)" by (cases e)
  obtain x s' where ft: "flushTablet s t b = (Inr x, s')"
    using flushTablet_returns by blast
  show ?case using Cons.IH[of s' "d @ [x]"] by (simp add: e ft)
qed

lemma flushEntries_lookup: "operationsInLookup (snd (flushEntries s d M)) = operationsInLookup s"
proof (induction M arbitrary: s d)
  case Nil
  then show ?case by simp
next
  case (Cons e M)
  obtain t b where e: "e = (t, b)" by (cases e)
  obtain x s' where ft: "flushTablet s t b = (Inr x, s')"
    using flushTablet_returns by blast
  have "operationsInLookup s' = operationsInLookup s"
    using flushTablet_lookup[of s t b] ft by simp
  then show ?case using Cons.IH[of s' "d @ [x]"] by (simp add: e ft)
qed

lemma flushEntries_calls:
  "distinct (map fst M) \<Longrightarrow>
   clientCalls (snd (flushEntries s d M)) =
     clientCalls s @
       map (\<lambda>(t, b). SendRpcToTabletCall (BatchRpc b))
         (filter (\<lambda>(t, b). map_of (operations s) t = Some b \<and>
                           map_of (operationsInFlight s) t = None) M)"
proof (induction M arbitrary: s d)
  case Nil
  then show ?case by simp
next
  case (Cons e M)
  obtain t b where e: "e = (t, b)" by (cases e)
  obtain x s' where ft: "flushTablet s t b = (Inr x, s')"
    using flushTablet_returns by blast
  have s': "s' = snd (flushTablet s t b)" using ft by simp
  have dM: "distinct (map fst M)" and tM: "t \<notin> fst ` set M"
    using Cons.prems e by auto
  have same: "\<And>t' b'. (t', b') \<in> set M \<Longrightarrow>
      map_of (operations s') t' = map_of (operations s) t' \<and>
      map_of (operationsInFlight s') t' = map_of (operationsInFlight s) t'"
  proof -
    fix t' b' assume "(t', b') \<in> set M"
    then have "t' \<noteq> t" using tM by force
    then show "map_of (operations s') t' = map_of (operations s) t' \<and>
      map_of (operationsInFlight s') t' = map_of (operationsInFlight s) t'"
      unfolding s' by (rule flushTablet_frame)
  qed
  have fl: "filter (\<lambda>(t, b). map_of (operations s') t = Some b \<and>
                           map_of (operationsInFlight s') t = None) M
       = filter (\<lambda>(t, b). map_of (operations s) t = Some b \<and>
                           map_of (operationsInFlight s) t = None) M"
    by (rule filter_cong) (use same in auto)
  have "clientCalls (snd (flushEntries s d (e # M))) =
        clientCalls (snd (flushEntries s' (d @ [x]) M))"
    by (simp add: e ft)
  also have "\<dots> = clientCalls s' @ map (\<lambda>(t, b). SendRpcToTabletCall (BatchRpc b))
         (filter (\<lambda>(t, b). map_of (operations s') t = Some b \<and>
                           map_of (operationsInFlight s') t = None) M)"
    by (rule Cons.IH[OF dM])
  finally have all: "clientCalls (snd (flushEntries s d (e # M))) =
      clientCalls s' @ map (\<lambda>(t, b). SendRpcToTabletCall (BatchRpc b))
         (filter (\<lambda>(t, b). map_of (operations s) t = Some b \<and>
                           map_of (operationsInFlight s) t = None) M)"
    by (simp only: fl)
  have cs: "clientCalls s' = clientCalls s @
       (if map_of (operations s) t = Some b \<and> map_of (operationsInFlight s) t = None
        then [SendRpcToTabletCall (BatchRpc b)] else [])"
    using flushTablet_calls[of s t b] s' by simp
  show ?case unfolding all cs by (simp add: e)
qed

lemma flushEntries_operations:
  "distinct (map fst M) \<Longrightarrow>
   map_of (operations (snd (flushEntries s d M))) t =
     (if (\<exists>b. (t, b) \<in> set M \<and> map_of (operations s) t = Some b) \<and>
         map_of (operationsInFlight s) t = None
      then None else map_of (operations s) t)"
proof (induction M arbitrary: s d)
  case Nil
  then show ?case by simp
next
  case (Cons e M)
  obtain t0 b0 where e: "e = (t0, b0)" by (cases e)
  obtain x s' where ft: "flushTablet s t0 b0 = (Inr x, s')"
    using flushTablet_returns by blast
  have s': "s' = snd (flushTablet s t0 b0)" using ft by simp
  have dM: "distinct (map fst M)" and tM: "t0 \<notin> fst ` set M"
    using Cons.prems e by auto
  have step: "map_of (operations (snd (flushEntries s d (e # M)))) t =
     (if (\<exists>b. (t, b) \<in> set M \<and> map_of (operations s') t = Some b) \<and>
         map_of (operationsInFlight s') t = None
      then None else map_of (operations s') t)"
    using Cons.IH[OF dM, of s' "d @ [x]"] by (simp add: e ft)
  show ?case
  proof (cases "t = t0")
    case True
    then have "\<not> (\<exists>b. (t, b) \<in> set M)" using tM by force
    then show ?thesis
      using step True flushTablet_operations[of s t0 b0] by (auto simp: e s')
  next
    case False
    then show ?thesis
      using step flushTablet_frame[of t t0 s b0] by (auto simp: e s')
  qed
qed

lemma flushEntries_callbacks_mono:
  "set (callbacks s) \<subseteq> set (callbacks (snd (flushEntries s d M)))"
proof (induction M arbitrary: s d)
  case Nil
  then show ?case by simp
next
  case (Cons e M)
  obtain t b where e: "e = (t, b)" by (cases e)
  obtain x s' where ft: "flushTablet s t b = (Inr x, s')"
    using flushTablet_returns by blast
  have "set (callbacks s) \<subseteq> set (callbacks s')"
    using flushTablet_callbacks_mono[of s t b] ft by simp
  also have "\<dots> \<subseteq> set (callbacks (snd (flushEntries s' (d @ [x]) M)))"
    by (rule Cons.IH)
  finally show ?case by (simp add: e ft)
qed

lemma flushEntries_chained:
  "distinct (map fst M) \<Longrightarrow> (t, b) \<in> set M \<Longrightarrow> map_of (operations s) t = Some b \<Longrightarrow>
   map_of (operationsInFlight s) t = Some x \<Longrightarrow>
   (x, FlushRetryCallback t b) \<in> set (callbacks (snd (flushEntries s d M)))"
proof (induction M arbitrary: s d)
  case Nil
  then show ?case by simp
next
  case (Cons e M)
  obtain t0 b0 where e: "e = (t0, b0)" by (cases e)
  obtain y s' where ft: "flushTablet s t0 b0 = (Inr y, s')"
    using flushTablet_returns by blast
  have s': "s' = snd (flushTablet s t0 b0)" using ft by simp
  have dM: "distinct (map fst M)" and tM: "t0 \<notin> fst ` set M"
    using Cons.prems(1) e by auto
  show ?case
  proof (cases "(t, b) = (t0, b0)")
    case True
    then have "flushTablet s t0 b0 =
        (Inr x, s\<lparr>callbacks := callbacks s @ [(x, FlushRetryCallback t0 b0)]\<rparr>)"
      using Cons.prems(3,4) flushTablet_blocked by auto
    then have "(x, FlushRetryCallback t b) \<in> set (callbacks s')"
      using ft True by auto
    then show ?thesis
      using flushEntries_callbacks_mono[of s' "d @ [y]" M] by (auto simp: e ft)
  next
    case False
    then have inM: "(t, b) \<in> set M" using Cons.prems(2) e by auto
    then have "t \<noteq> t0" using tM by force
    then have "map_of (operations s') t = Some b" "map_of (operationsInFlight s') t = Some x"
      using flushTablet_frame[of t t0 s b0] Cons.prems(3,4) s' by auto
    then show ?thesis
      using Cons.IH[OF dM inM, of s' "d @ [y]"] by (simp add: e ft)
  qed
qed

lemma flush_unlocked_snd: "snd (flush_unlocked s d M) = snd (flushEntries s d M)"
  by (cases "flushEntries s d M") (auto simp: flush_unlocked_def split: sum.splits)

lemma flush_unlocked_fst:
  "fst (flushEntries s d M) = Inr ds \<Longrightarrow> fst (flush_unlocked s d M) = Inr (Some (Group ds))"
  by (cases "flushEntries s d M") (auto simp: flush_unlocked_def split: sum.splits)

lemma flush_eq:
  "flush s = flush_unlocked
     (s\<lparr>operationsInLookup := [],
        clientCalls := clientCalls s @
          map (\<lambda>r. SendRpcToTabletCall (OperationRpc r)) (operationsInLookup s)\<rparr>)
     (map (\<lambda>r. SendRpcToTablet (OperationRpc r)) (operationsInLookup s)) (operations s)"
  by (simp add: flush_def flush_synchronized_eq)

lemma flush_returns_group: "\<exists>ds. fst (flush s) = Inr (Some (Group ds))"
  using flushEntries_returns flush_unlocked_fst unfolding flush_eq by blast

section \<open>The completion callback of a batch\<close>

text \<open>
  Claim C1: the completion callback is to hand the per-row error of row \<open>i\<close> to the
  operation at position \<open>i\<close> and null to every other operation, so that a batch of three
  operations answered with the single error of row 1 gives null, the error, null. On that
  input the callback gives null to all three operations, because the guard
  \<open>errorsIndex + 1 < count\<close> is false for a list of one error; the response is returned
  unchanged. With errors for rows 0 and 1 the operation at position 0 receives the error
  of row 1, read after the cursor has moved, and the operation at position 1 receives null.
\<close>

theorem BatchCallback_single_row_error_dropped:
  "BatchCallback_call session_three_ops 0 (WriteResponsePB response_row1) =
     (Inr (WriteResponsePB response_row1),
      session_three_ops\<lparr>fired := [(OperationDeferred 0, NullObject),
                                   (OperationDeferred 1, NullObject),
                                   (OperationDeferred 2, NullObject)]\<rparr>) \<and>
   fired (snd (BatchCallback_call session_three_ops 0 (WriteResponsePB response_rows01))) =
     [(OperationDeferred 0, PerRowErrorPB errorB),
      (OperationDeferred 1, NullObject),
      (OperationDeferred 2, NullObject)]"
  by (simp add: BatchCallback_call_def session_three_ops_def response_row1_def
      response_rows01_def errorX_def errorA_def errorB_def example_defs)

section \<open>The setters\<close>

text \<open>
  A session in background mode that applies one operation and flushes has nothing
  accumulating and nothing in lookup, but a batch in flight; there \<open>setFlushMode\<close>
  fails.
\<close>

lemma in_flight_only_reachable:
  "operations (snd (flush (snd (apply_operation client_cached
       (snd (setFlushMode KuduSession_new AUTO_FLUSH_BACKGROUND)) (Some 0))))) = [] \<and>
   operationsInFlight (snd (flush (snd (apply_operation client_cached
       (snd (setFlushMode KuduSession_new AUTO_FLUSH_BACKGROUND)) (Some 0))))) =
     [(''T'', BatchDeferred 0)] \<and>
   operationsInLookup (snd (flush (snd (apply_operation client_cached
       (snd (setFlushMode KuduSession_new AUTO_FLUSH_BACKGROUND)) (Some 0))))) = [] \<and>
   fst (setMutationBufferSpace (snd (flush (snd (apply_operation client_cached
       (snd (setFlushMode KuduSession_new AUTO_FLUSH_BACKGROUND)) (Some 0))))) 5) = Inr ()"
  by (simp add: setFlushMode_def apply_operation_def addToBuffer_def addToBatch_def
      addBatchCallbacks_def addBoth_def scheduleNextPeriodicFlush_def Operation_setTablet_def
      flush_def flush_synchronized_def flush_unlocked_def flushTablet_def sendRpcToTablet_def
      setMutationBufferSpace_def client_cached_def Let_def example_defs)

lemma setFlushMode_in_flight_fails:
  "setFlushMode session_in_flight_only MANUAL_FLUSH =
     (Inl (IllegalArgumentException ''Cannot change flush mode when writes are buffered''),
      session_in_flight_only)"
  by (simp add: setFlushMode_def session_in_flight_only_def example_defs)

text \<open>
  Claim C2: each of the setters of flush mode, buffer size and consistency mode is to fail
  unless nothing accumulates, nothing is in flight and nothing is in lookup. In a session
  where nothing accumulates and nothing is in lookup but a batch is in flight,
  \<open>setFlushMode\<close> fails, while \<open>setMutationBufferSpace\<close> and
  \<open>setExternalConsistencyMode\<close>, which look at the accumulating batches only, succeed
  and change their field.
\<close>

theorem buffer_setters_ignore_in_flight:
  "operations session_in_flight_only = [] \<and>
   operationsInFlight session_in_flight_only = [(''T'', BatchDeferred 0)] \<and>
   operationsInLookup session_in_flight_only = [] \<and>
   setMutationBufferSpace session_in_flight_only 5 =
     (Inr (), session_in_flight_only\<lparr>mutationBufferSpace := 5\<rparr>) \<and>
   setExternalConsistencyMode session_in_flight_only (OTHER_CONSISTENCY 1) =
     (Inr (), session_in_flight_only\<lparr>consistencyMode := OTHER_CONSISTENCY 1\<rparr>)"
  by (simp add: setMutationBufferSpace_def setExternalConsistencyMode_def
      session_in_flight_only_def example_defs)

section \<open>Overflow of an accumulating batch\<close>

text \<open>
  Claim C3, amended: in manual flush mode, when \<open>apply\<close> finds the tablet of the
  operation cached and the accumulating batch of that tablet already holds as many
  operations as the buffer allows (or more), \<open>apply\<close> throws the non-recoverable
  exception to its caller. Nothing but the tablet recorded in the operation changes: no
  deferred is fired, the batch is neither flushed nor extended.
\<close>

theorem manual_overflow_throws:
  assumes "\<not> cannotRetryRequest c (opStore s r)"
    and "flushMode s = MANUAL_FLUSH"
    and "getTablet c (table (opStore s r)) (key (opStore s r)) = Some t"
    and "map_of (operations s) t = Some b"
    and "mutationBufferSpace s < int (length (ops (batchStore s b))) + 1"
  shows "apply_operation c s (Some r) =
           (Inl (NonRecoverableException bufferTooBig), Operation_setTablet s r t) \<and>
         fired (Operation_setTablet s r t) = fired s \<and>
         operations (Operation_setTablet s r t) = operations s \<and>
         operationsInFlight (Operation_setTablet s r t) = operationsInFlight s \<and>
         batchStore (Operation_setTablet s r t) = batchStore s \<and>
         clientCalls (Operation_setTablet s r t) = clientCalls s"
  using assms
  by (simp add: apply_operation_def addToBuffer_def Operation_setTablet_def)

text \<open>The fourth operation for tablet \<open>T\<close>, with three operations per batch.\<close>

theorem manual_overflow_throws_witness:
  "apply_operation client_cached session_manual_full (Some 4) =
     (Inl (NonRecoverableException bufferTooBig),
      Operation_setTablet session_manual_full 4 ''T'')"
  using manual_overflow_throws[of client_cached session_manual_full 4 "''T''" 0]
  by (simp add: client_cached_def session_manual_full_def example_defs)

text \<open>
  As first stated, the claim has the deferred of the operation fail. In the same session
  \<open>apply\<close> does not return a deferred at all, and no deferred has been fired afterwards.
\<close>

theorem manual_overflow_future_counterexample:
  "fst (apply_operation client_cached session_manual_full (Some 4)) =
     Inl (NonRecoverableException bufferTooBig) \<and>
   fst (apply_operation client_cached session_manual_full (Some 4)) \<noteq>
     Inr (OperationDeferred 4) \<and>
   fired (snd (apply_operation client_cached session_manual_full (Some 4))) = []"
  by (simp add: apply_operation_def addToBuffer_def client_cached_def session_manual_full_def
      Operation_setTablet_def example_defs)

text \<open>
  Claim C4: outside manual flush mode, when \<open>apply\<close> overflows the accumulating batch
  of tablet \<open>t\<close> and \<open>flushTablet\<close> leaves that batch in place, a batch of \<open>t\<close> is in
  flight, and \<open>apply\<close> throws the throttle exception carrying exactly the deferred that
  the in-flight map holds for \<open>t\<close>, before and after the call; the batch still
  accumulates.
\<close>

theorem overflow_throttle_carries_in_flight:
  assumes "\<not> cannotRetryRequest c (opStore s r)"
    and "flushMode s \<noteq> AUTO_FLUSH_SYNC" and "flushMode s \<noteq> MANUAL_FLUSH"
    and "getTablet c (table (opStore s r)) (key (opStore s r)) = Some t"
    and "map_of (operations s) t = Some b"
    and "mutationBufferSpace s < int (length (ops (batchStore s b))) + 1"
    and "map_of (operations (snd (flushTablet (Operation_setTablet s r t) t b))) t \<noteq> None"
  shows "\<exists>d. map_of (operationsInFlight s) t = Some d \<and>
             fst (apply_operation c s (Some r)) =
               Inl (PleaseThrottleException pleaseThrottle r (Some d)) \<and>
             map_of (operationsInFlight (snd (apply_operation c s (Some r)))) t = Some d \<and>
             map_of (operations (snd (apply_operation c s (Some r)))) t = Some b"
proof (cases "map_of (operationsInFlight s) t")
  case None
  let ?s = "Operation_setTablet s r t"
  have "map_of (operations ?s) t = Some b" "map_of (operationsInFlight ?s) t = None"
    using assms(5) None by (simp_all add: Operation_setTablet_def)
  then have "operations (snd (flushTablet ?s t b)) = AList.delete t (operations ?s)"
    using flushTablet_dispatch by blast
  then have "map_of (operations (snd (flushTablet ?s t b))) t = None"
    by (simp add: delete_conv')
  with assms(7) show ?thesis by simp
next
  case (Some d)
  let ?s = "Operation_setTablet s r t"
  have a: "map_of (operations ?s) t = Some b" "map_of (operationsInFlight ?s) t = Some d"
    using assms(5) Some by (simp_all add: Operation_setTablet_def)
  have ft: "flushTablet ?s t b =
      (Inr d, ?s\<lparr>callbacks := callbacks ?s @ [(d, FlushRetryCallback t b)]\<rparr>)"
    using flushTablet_blocked[OF a] .
  have ov: "mutationBufferSpace ?s < int (length (ops (batchStore ?s b))) + 1"
       "flushMode ?s \<noteq> MANUAL_FLUSH"
    using assms(3,6) by (simp_all add: Operation_setTablet_def)
  have "addToBuffer ?s t r =
      (Inl (PleaseThrottleException pleaseThrottle r (Some d)),
       ?s\<lparr>callbacks := callbacks ?s @ [(d, FlushRetryCallback t b)]\<rparr>)"
    using a ov by (simp add: addToBuffer_def ft)
  moreover have "apply_operation c s (Some r) = addToBuffer ?s t r"
    using assms(1,2,4) by (simp add: apply_operation_def)
  ultimately show ?thesis using Some a by simp
qed

text \<open>Two operations per batch, a batch in flight for \<open>T\<close> and a full one accumulating:
  the next operation is thrown back with the deferred of the batch in flight.\<close>

theorem overflow_throttle_carries_in_flight_witness:
  "fst (apply_operation client_cached session_blocked (Some 4)) =
     Inl (PleaseThrottleException pleaseThrottle 4 (Some (BatchDeferred 0))) \<and>
   map_of (operationsInFlight (snd (apply_operation client_cached session_blocked (Some 4))))
     ''T'' = Some (BatchDeferred 0)"
proof -
  have h: "map_of (operations (snd (flushTablet
             (Operation_setTablet session_blocked 4 ''T'') ''T'' 1))) ''T'' \<noteq> None"
    by (simp add: flushTablet_def addBoth_def Operation_setTablet_def session_blocked_def
        example_defs)
  show ?thesis
    using overflow_throttle_carries_in_flight[of client_cached session_blocked 4 "''T''" 1,
        OF _ _ _ _ _ _ h]
    by (simp add: client_cached_def session_blocked_def example_defs)
qed

section \<open>Flushing one tablet\<close>

text \<open>
  Claim C6: at most one batch of a tablet is in flight. When \<open>flushTablet\<close> finds the
  expected batch accumulating and a deferred in flight for its tablet, it sends nothing,
  leaves both maps as they are, and returns the deferred in flight with a
  \<open>FlushRetryCallback\<close> chained on it, whose call is \<open>flushTablet\<close> for the same tablet
  and batch. \<open>flushTablet\<close> gives the in-flight map a new entry only for its own tablet
  and only when the map had none for it; the keys of the map stay distinct.
\<close>

theorem flushTablet_chains_behind_in_flight:
  "(map_of (operations s) t = Some b \<and> map_of (operationsInFlight s) t = Some d \<longrightarrow>
      flushTablet s t b =
        (Inr d, s\<lparr>callbacks := callbacks s @ [(d, FlushRetryCallback t b)]\<rparr>) \<and>
      clientCalls (snd (flushTablet s t b)) = clientCalls s \<and>
      operations (snd (flushTablet s t b)) = operations s \<and>
      operationsInFlight (snd (flushTablet s t b)) = operationsInFlight s \<and>
      FlushRetryCallback_call s' t b obj = flushTablet s' t b) \<and>
   (map_of (operationsInFlight (snd (flushTablet s t b))) t' = Some d' \<and>
    map_of (operationsInFlight s) t' \<noteq> Some d' \<longrightarrow>
      t' = t \<and> map_of (operationsInFlight s) t = None \<and> d' = BatchDeferred b \<and>
      map_of (operations s) t = Some b) \<and>
   (distinct (map fst (operationsInFlight s)) \<longrightarrow>
      distinct (map fst (operationsInFlight (snd (flushTablet s t b)))))"
proof (intro conjI impI)
  assume a: "map_of (operations s) t = Some b \<and> map_of (operationsInFlight s) t = Some d"
  then have ft: "flushTablet s t b =
      (Inr d, s\<lparr>callbacks := callbacks s @ [(d, FlushRetryCallback t b)]\<rparr>)"
    by (simp add: flushTablet_blocked)
  show "flushTablet s t b =
      (Inr d, s\<lparr>callbacks := callbacks s @ [(d, FlushRetryCallback t b)]\<rparr>)" by (rule ft)
  show "clientCalls (snd (flushTablet s t b)) = clientCalls s" by (simp add: ft)
  show "operations (snd (flushTablet s t b)) = operations s" by (simp add: ft)
  show "operationsInFlight (snd (flushTablet s t b)) = operationsInFlight s" by (simp add: ft)
  show "FlushRetryCallback_call s' t b obj = flushTablet s' t b"
    by (simp add: FlushRetryCallback_call_def)
next
  assume a: "map_of (operationsInFlight (snd (flushTablet s t b))) t' = Some d' \<and>
    map_of (operationsInFlight s) t' \<noteq> Some d'"
  then have ne: "operationsInFlight (snd (flushTablet s t b)) \<noteq> operationsInFlight s" by auto
  with flushTablet_inflight_cases[of s t b]
  have c: "map_of (operations s) t = Some b" "map_of (operationsInFlight s) t = None"
     "operationsInFlight (snd (flushTablet s t b)) =
        AList.update t (BatchDeferred b) (operationsInFlight s)" by auto
  from a c(3) have m: "((map_of (operationsInFlight s))(t \<mapsto> BatchDeferred b)) t' = Some d'"
    by (simp add: update_conv')
  with a have tt: "t' = t" by (auto split: if_splits)
  with m have "d' = BatchDeferred b" by simp
  with tt c show "t' = t" "map_of (operationsInFlight s) t = None" "d' = BatchDeferred b"
    "map_of (operations s) t = Some b" by simp_all
next
  assume "distinct (map fst (operationsInFlight s))"
  with flushTablet_inflight_cases[of s t b]
  show "distinct (map fst (operationsInFlight (snd (flushTablet s t b))))"
    by (auto simp: distinct_update)
qed

text \<open>A flush of tablet \<open>T\<close> behind the batch in flight, and a flush of \<open>T\<close> with nothing
  in flight, which enters the in-flight map.\<close>

theorem flushTablet_chains_behind_in_flight_witness:
  "flushTablet session_blocked ''T'' 1 =
     (Inr (BatchDeferred 0),
      session_blocked\<lparr>callbacks := [(BatchDeferred 0, FlushRetryCallback ''T'' 1)]\<rparr>) \<and>
   map_of (operationsInFlight (snd (flushTablet session_accumulating ''T'' 0))) ''T''
     = Some (BatchDeferred 0) \<and>
   map_of (operationsInFlight session_accumulating) ''T'' = None \<and>
   distinct (map fst (operationsInFlight (snd (flushTablet session_accumulating ''T'' 0))))"
proof -
  have h: "map_of (operationsInFlight (snd (flushTablet session_accumulating ''T'' 0))) ''T''
     = Some (BatchDeferred 0)"
    by (simp add: flushTablet_def addBoth_def sendRpcToTablet_def session_accumulating_def
        Let_def example_defs)
  show ?thesis
    using flushTablet_chains_behind_in_flight[of session_blocked "''T''" 1 "BatchDeferred 0"
             session_blocked NullObject "''T''" "BatchDeferred 0"]
          flushTablet_chains_behind_in_flight[of session_accumulating "''T''" 0
             "BatchDeferred 0" session_accumulating NullObject "''T''" "BatchDeferred 0"] h
    by (simp add: session_blocked_def session_accumulating_def example_defs)
qed

text \<open>
  Claim C7: when the batch accumulating for a tablet is not the expected one,
  \<open>flushTablet\<close> returns a deferred already completed with null and leaves the whole
  session as it is; so the run of a \<open>FlusherTask\<close> whose batch was flushed already
  changes nothing.
\<close>

theorem flushTablet_stale_batch_noop:
  "map_of (operations s) t \<noteq> Some b \<Longrightarrow>
   flushTablet s t b = (Inr (FromResult NullObject), s) \<and>
   completed fin (FromResult NullObject) \<and>
   FlusherTask_run s t b = s"
  by (simp add: flushTablet_def FlusherTask_run_def)

text \<open>The timer of batch 0 fires after batch 0 has been sent and batch 1 has taken its
  place.\<close>

theorem flushTablet_stale_batch_noop_witness:
  "map_of (operations session_blocked) ''T'' \<noteq> Some 0 \<and>
   flushTablet session_blocked ''T'' 0 = (Inr (FromResult NullObject), session_blocked) \<and>
   FlusherTask_run session_blocked ''T'' 0 = session_blocked"
  using flushTablet_stale_batch_noop[of session_blocked "''T''" 0]
  by (simp add: session_blocked_def example_defs)

section \<open>Pending operations\<close>

text \<open>
  Claim C8: \<open>hasPendingOperations\<close> is false in every session, also in one with a batch
  accumulating and a batch in flight and in one with an operation in lookup.
\<close>

theorem hasPendingOperations_false:
  "\<not> hasPendingOperations s \<and>
   \<not> hasPendingOperations session_blocked \<and>
   operations session_blocked \<noteq> [] \<and> operationsInFlight session_blocked \<noteq> [] \<and>
   \<not> hasPendingOperations session_lookup \<and> operationsInLookup session_lookup \<noteq> []"
  by (simp add: hasPendingOperations_def session_blocked_def session_lookup_def example_defs)

section \<open>The retry continuation\<close>

text \<open>
  Claim C9, amended: the retry continuation of an operation that is not in the list of
  operations in lookup changes nothing in the session and returns a deferred already
  completed with null; only a call that finds the operation in the list and removes it
  goes on, and when the lookup is to be retried and \<open>apply\<close> returns a deferred, the
  call is \<open>apply\<close> on the session without that entry. A further call is without effect
  whenever the call before it has left the operation out of the list. Nothing is said of a
  further call when \<open>apply\<close> has put the operation back into the list.
\<close>

theorem RetryRpcCB_absent_noop:
  "(r \<notin> set (operationsInLookup s) \<longrightarrow>
      RetryRpcCB_call c s r arg = (Inr (FromResult NullObject), s) \<and>
      completed fin (FromResult NullObject)) \<and>
   (RetryRpcCB_call c s r arg \<noteq> (Inr (FromResult NullObject), s) \<longrightarrow>
      r \<in> set (operationsInLookup s)) \<and>
   (r \<in> set (operationsInLookup s) \<and>
    handleLookupExceptions c (opStore s r) arg = None \<and>
    fst (apply_operation c
           (s\<lparr>operationsInLookup := remove1 r (operationsInLookup s)\<rparr>) (Some r)) = Inr x \<longrightarrow>
      RetryRpcCB_call c s r arg =
        apply_operation c (s\<lparr>operationsInLookup := remove1 r (operationsInLookup s)\<rparr>)
          (Some r)) \<and>
   (r \<notin> set (operationsInLookup (snd (RetryRpcCB_call c s r arg))) \<longrightarrow>
      RetryRpcCB_call c (snd (RetryRpcCB_call c s r arg)) r arg' =
        (Inr (FromResult NullObject), snd (RetryRpcCB_call c s r arg)))"
proof (intro conjI impI)
  assume "r \<notin> set (operationsInLookup s)"
  then show "RetryRpcCB_call c s r arg = (Inr (FromResult NullObject), s)"
    by (simp add: RetryRpcCB_call_def)
next
  show "completed fin (FromResult NullObject)" by simp
next
  assume neq: "RetryRpcCB_call c s r arg \<noteq> (Inr (FromResult NullObject), s)"
  show "r \<in> set (operationsInLookup s)"
  proof (rule ccontr)
    assume "r \<notin> set (operationsInLookup s)"
    then have "RetryRpcCB_call c s r arg = (Inr (FromResult NullObject), s)"
      by (simp add: RetryRpcCB_call_def)
    with neq show False by simp
  qed
next
  let ?s1 = "s\<lparr>operationsInLookup := remove1 r (operationsInLookup s)\<rparr>"
  assume a: "r \<in> set (operationsInLookup s) \<and>
    handleLookupExceptions c (opStore s r) arg = None \<and>
    fst (apply_operation c ?s1 (Some r)) = Inr x"
  then obtain s2 where "apply_operation c ?s1 (Some r) = (Inr x, s2)"
    by (cases "apply_operation c ?s1 (Some r)") auto
  with a show "RetryRpcCB_call c s r arg = apply_operation c ?s1 (Some r)"
    by (simp add: RetryRpcCB_call_def)
next
  assume "r \<notin> set (operationsInLookup (snd (RetryRpcCB_call c s r arg)))"
  then show "RetryRpcCB_call c (snd (RetryRpcCB_call c s r arg)) r arg' =
        (Inr (FromResult NullObject), snd (RetryRpcCB_call c s r arg))"
    by (simp add: RetryRpcCB_call_def)
qed

text \<open>The continuation of operation 7 in a fresh session, and in a session where it waits
  for its tablet and the tablet is cached by now: the first call puts it into a batch, the
  second call does nothing.\<close>

theorem RetryRpcCB_absent_noop_witness:
  "RetryRpcCB_call client_cached KuduSession_new 7 NullObject =
     (Inr (FromResult NullObject), KuduSession_new) \<and>
   7 \<in> set (operationsInLookup session_lookup) \<and>
   RetryRpcCB_call client_cached session_lookup 7 NullObject =
     apply_operation client_cached (session_lookup\<lparr>operationsInLookup := []\<rparr>) (Some 7) \<and>
   fst (RetryRpcCB_call client_cached session_lookup 7 NullObject) =
     Inr (OperationDeferred 7) \<and>
   RetryRpcCB_call client_cached
       (snd (RetryRpcCB_call client_cached session_lookup 7 NullObject)) 7 NullObject =
     (Inr (FromResult NullObject),
      snd (RetryRpcCB_call client_cached session_lookup 7 NullObject))"
proof -
  let ?s1 = "session_lookup\<lparr>operationsInLookup :=
               remove1 7 (operationsInLookup session_lookup)\<rparr>"
  have rm: "?s1 = session_lookup\<lparr>operationsInLookup := []\<rparr>"
    by (simp add: session_lookup_def example_defs)
  have ap: "fst (apply_operation client_cached ?s1 (Some 7)) = Inr (OperationDeferred 7)"
    unfolding rm
    by (simp add: apply_operation_def addToBuffer_def client_cached_def session_lookup_def
        Operation_setTablet_def example_defs)
  have hl: "handleLookupExceptions client_cached (opStore session_lookup 7) NullObject = None"
    by (simp add: client_cached_def)
  have mem: "7 \<in> set (operationsInLookup session_lookup)"
    by (simp add: session_lookup_def example_defs)
  have emp: "7 \<notin> set (operationsInLookup KuduSession_new)"
    by (simp add: KuduSession_new_def)
  have b: "7 \<notin> set (operationsInLookup
                      (snd (RetryRpcCB_call client_cached session_lookup 7 NullObject)))"
    by (simp add: RetryRpcCB_call_def apply_operation_def addToBuffer_def addToBatch_def
        client_cached_def session_lookup_def Operation_setTablet_def addBatchCallbacks_def
        addBoth_def scheduleNextPeriodicFlush_def Let_def example_defs)
  note fresh = RetryRpcCB_absent_noop[of 7 KuduSession_new client_cached NullObject
      "\<lambda>_. False" "OperationDeferred 7" NullObject]
  note waiting = RetryRpcCB_absent_noop[of 7 session_lookup client_cached NullObject
      "\<lambda>_. False" "OperationDeferred 7" NullObject]
  have c1: "RetryRpcCB_call client_cached KuduSession_new 7 NullObject =
     (Inr (FromResult NullObject), KuduSession_new)"
    using fresh emp by blast
  have c3: "RetryRpcCB_call client_cached session_lookup 7 NullObject =
     apply_operation client_cached ?s1 (Some 7)"
    using waiting mem hl ap by blast
  have c4: "RetryRpcCB_call client_cached
       (snd (RetryRpcCB_call client_cached session_lookup 7 NullObject)) 7 NullObject =
     (Inr (FromResult NullObject),
      snd (RetryRpcCB_call client_cached session_lookup 7 NullObject))"
    using waiting b by blast
  have a: "fst (RetryRpcCB_call client_cached session_lookup 7 NullObject) =
     Inr (OperationDeferred 7)"
    using c3 ap by simp
  show ?thesis using c1 mem c3[unfolded rm] a c4 by blast
qed

text \<open>
  As first stated, the claim has two calls of the continuation end as one call does. With
  the tablet still unknown, a call removes operation 7 and \<open>apply\<close> puts it back for
  another lookup, counting one more attempt. After one such call the continuation of the
  new lookup, run once the tablet is cached, buffers the operation; after two such calls
  it finds the attempts used up and the operation is given up.
\<close>

theorem RetryRpcCB_twice_counterexample:
  "operationsInLookup (snd (RetryRpcCB_call client_uncached session_lookup 7 NullObject))
     = [7] \<and>
   operationsInLookup (snd (RetryRpcCB_call client_uncached
          (snd (RetryRpcCB_call client_uncached session_lookup 7 NullObject)) 7 NullObject))
     = [7] \<and>
   fst (RetryRpcCB_call client_cached
          (snd (RetryRpcCB_call client_uncached session_lookup 7 NullObject)) 7 NullObject) =
     Inr (OperationDeferred 7) \<and>
   fst (RetryRpcCB_call client_cached
          (snd (RetryRpcCB_call client_uncached
             (snd (RetryRpcCB_call client_uncached session_lookup 7 NullObject))
             7 NullObject)) 7 NullObject) =
     Inr (TooManyAttemptsOrTimeout 7)"
  by (simp add: RetryRpcCB_call_def apply_operation_def addToBuffer_def client_uncached_def
      client_cached_def session_lookup_def addBoth_def Operation_incrementAttempt_def
      Operation_setTablet_def Let_def example_defs)

section \<open>Flushing the session\<close>

text \<open>
  Claim C5, amended: the synchronized block of \<open>flush\<close> copies and empties the list of
  operations in lookup, sending each copied operation, and copies the map of accumulating
  batches without emptying it. \<open>flush\<close> returns the group of the deferreds of those
  sends and of the deferred that \<open>flushTablet\<close> returns for each copied batch: run
  without interruption, that is the deferred of the send of the batch when nothing is in
  flight for its tablet (the batch then leaves the map), and otherwise the deferred in
  flight, on which the flush is chained (the batch then stays). The group is complete only
  when all these deferreds are. For a copied batch that is no longer the accumulating one
  when the loop reaches it, the group holds a deferred already completed with null instead.
\<close>

theorem flush_groups_snapshot:
  assumes "distinct (map fst (operations s))"
  shows
  "flush_synchronized s =
     ((map (\<lambda>r. SendRpcToTablet (OperationRpc r)) (operationsInLookup s), operations s),
      s\<lparr>operationsInLookup := [],
        clientCalls := clientCalls s @
          map (\<lambda>r. SendRpcToTabletCall (OperationRpc r)) (operationsInLookup s)\<rparr>) \<and>
   fst (flush s) =
     Inr (Some (Group
       (map (\<lambda>r. SendRpcToTablet (OperationRpc r)) (operationsInLookup s) @
        map (\<lambda>(t, b). case map_of (operationsInFlight s) t of
                        Some x \<Rightarrow> x | None \<Rightarrow> SendRpcToTablet (BatchRpc b))
            (operations s)))) \<and>
   operationsInLookup (snd (flush s)) = [] \<and>
   clientCalls (snd (flush s)) =
     clientCalls s @
     map (\<lambda>r. SendRpcToTabletCall (OperationRpc r)) (operationsInLookup s) @
     map (\<lambda>(t, b). SendRpcToTabletCall (BatchRpc b))
       (filter (\<lambda>(t, b). map_of (operationsInFlight s) t = None) (operations s)) \<and>
   map_of (operations (snd (flush s))) t =
     (if map_of (operationsInFlight s) t = None then None else map_of (operations s) t) \<and>
   ((t, b) \<in> set (operations s) \<and> map_of (operationsInFlight s) t = Some x \<longrightarrow>
      (x, FlushRetryCallback t b) \<in> set (callbacks (snd (flush s)))) \<and>
   (completed fin (Group
       (map (\<lambda>r. SendRpcToTablet (OperationRpc r)) (operationsInLookup s) @
        map (\<lambda>(t, b). case map_of (operationsInFlight s) t of
                        Some x \<Rightarrow> x | None \<Rightarrow> SendRpcToTablet (BatchRpc b))
            (operations s))) \<longrightarrow>
      list_all (\<lambda>r. fin (SendRpcToTablet (OperationRpc r))) (operationsInLookup s) \<and>
      list_all (\<lambda>(t, b). completed fin (case map_of (operationsInFlight s) t of
                                          Some x \<Rightarrow> x | None \<Rightarrow> SendRpcToTablet (BatchRpc b)))
               (operations s)) \<and>
   (distinct (map fst M) \<longrightarrow>
      fst (flush_unlocked s2 d M) =
        Inr (Some (Group (d @ map (\<lambda>(t, b).
                 if map_of (operations s2) t \<noteq> Some b then FromResult NullObject
                 else case map_of (operationsInFlight s2) t of
                        Some x \<Rightarrow> x | None \<Rightarrow> SendRpcToTablet (BatchRpc b)) M))))"
proof -
  let ?L = "operationsInLookup s"
  let ?s1 = "s\<lparr>operationsInLookup := [],
        clientCalls := clientCalls s @ map (\<lambda>r. SendRpcToTabletCall (OperationRpc r)) ?L\<rparr>"
  let ?d = "map (\<lambda>r. SendRpcToTablet (OperationRpc r)) ?L"
  let ?M = "operations s"
  have fl: "flush s = flush_unlocked ?s1 ?d ?M" by (rule flush_eq)
  have dM: "distinct (map fst ?M)" by (rule assms)
  have match: "\<And>t b. (t, b) \<in> set ?M \<Longrightarrow> map_of ?M t = Some b"
    using assms by simp
  have A: "flush_synchronized s = ((?d, ?M), ?s1)" by (rule flush_synchronized_eq)
  have "fst (flushEntries ?s1 ?d ?M) =
     Inr (?d @ map (\<lambda>(t, b). if map_of (operations ?s1) t \<noteq> Some b then FromResult NullObject
                           else case map_of (operationsInFlight ?s1) t of
                                  Some x \<Rightarrow> x | None \<Rightarrow> SendRpcToTablet (BatchRpc b)) ?M)"
    by (rule flushEntries_futures[OF dM])
  also have "map (\<lambda>(t, b). if map_of (operations ?s1) t \<noteq> Some b then FromResult NullObject
                           else case map_of (operationsInFlight ?s1) t of
                                  Some x \<Rightarrow> x | None \<Rightarrow> SendRpcToTablet (BatchRpc b)) ?M
      = map (\<lambda>(t, b). case map_of (operationsInFlight s) t of
                                 Some x \<Rightarrow> x | None \<Rightarrow> SendRpcToTablet (BatchRpc b)) ?M"
    by (rule map_cong) (use match in auto)
  finally have B: "fst (flush s) = Inr (Some (Group (?d @
        map (\<lambda>(t, b). case map_of (operationsInFlight s) t of
                                 Some x \<Rightarrow> x | None \<Rightarrow> SendRpcToTablet (BatchRpc b)) ?M)))"
    unfolding fl by (rule flush_unlocked_fst)
  have C: "operationsInLookup (snd (flush s)) = []"
    unfolding fl flush_unlocked_snd flushEntries_lookup by simp
  have "filter (\<lambda>(t, b). map_of (operations ?s1) t = Some b \<and>
                           map_of (operationsInFlight ?s1) t = None) ?M
      = filter (\<lambda>(t, b). map_of (operationsInFlight s) t = None) ?M"
    by (rule filter_cong) (use match in auto)
  then have D: "clientCalls (snd (flush s)) =
     clientCalls s @ map (\<lambda>r. SendRpcToTabletCall (OperationRpc r)) ?L @
     map (\<lambda>(t, b). SendRpcToTabletCall (BatchRpc b))
       (filter (\<lambda>(t, b). map_of (operationsInFlight s) t = None) ?M)"
    unfolding fl flush_unlocked_snd flushEntries_calls[OF dM] by simp
  have E: "map_of (operations (snd (flush s))) t =
     (if map_of (operationsInFlight s) t = None then None else map_of ?M t)"
    unfolding fl flush_unlocked_snd flushEntries_operations[OF dM]
    using assms by (cases "map_of (operations s) t") auto
  have F: "(t, b) \<in> set ?M \<and> map_of (operationsInFlight s) t = Some x \<longrightarrow>
      (x, FlushRetryCallback t b) \<in> set (callbacks (snd (flush s)))"
  proof
    assume h: "(t, b) \<in> set ?M \<and> map_of (operationsInFlight s) t = Some x"
    then have "(t, b) \<in> set ?M" "map_of (operations ?s1) t = Some b"
      "map_of (operationsInFlight ?s1) t = Some x"
      using match by simp_all
    then show "(x, FlushRetryCallback t b) \<in> set (callbacks (snd (flush s)))"
      unfolding fl flush_unlocked_snd by (rule flushEntries_chained[OF dM])
  qed
  have G: "completed fin (Group (?d @
                 map (\<lambda>(t, b). case map_of (operationsInFlight s) t of
                                 Some x \<Rightarrow> x | None \<Rightarrow> SendRpcToTablet (BatchRpc b)) ?M)) \<longrightarrow>
      list_all (\<lambda>r. fin (SendRpcToTablet (OperationRpc r))) ?L \<and>
      list_all (\<lambda>(t, b). completed fin (case map_of (operationsInFlight s) t of
                                 Some x \<Rightarrow> x | None \<Rightarrow> SendRpcToTablet (BatchRpc b))) ?M"
    by (simp add: list.pred_map comp_def split_def)
  have H: "distinct (map fst M) \<longrightarrow>
      fst (flush_unlocked s2 d M) =
        Inr (Some (Group (d @ map (\<lambda>(t, b).
                 if map_of (operations s2) t \<noteq> Some b then FromResult NullObject
                 else case map_of (operationsInFlight s2) t of
                        Some x \<Rightarrow> x | None \<Rightarrow> SendRpcToTablet (BatchRpc b)) M)))"
    using flushEntries_futures[of M s2 d] flush_unlocked_fst by blast
  from A B C D E F G H show ?thesis by blast
qed

text \<open>A flush with operation 9 in lookup, batch 1 accumulating behind batch 0 in flight
  for tablet \<open>T\<close>, and batch 2 accumulating for tablet \<open>U\<close>: operation 9 and batch 2 are
  sent, batch 1 stays and its flush is chained on the deferred of batch 0.\<close>

theorem flush_groups_snapshot_witness:
  "distinct (map fst (operations session_mixed)) \<and>
   fst (flush session_mixed) =
     Inr (Some (Group [SendRpcToTablet (OperationRpc 9), BatchDeferred 0,
                       SendRpcToTablet (BatchRpc 2)])) \<and>
   operationsInLookup (snd (flush session_mixed)) = [] \<and>
   clientCalls (snd (flush session_mixed)) =
     [SendRpcToTabletCall (OperationRpc 9), SendRpcToTabletCall (BatchRpc 2)] \<and>
   map_of (operations (snd (flush session_mixed))) ''T'' = Some 1 \<and>
   (BatchDeferred 0, FlushRetryCallback ''T'' 1) \<in> set (callbacks (snd (flush session_mixed))) \<and>
   fst (flush_unlocked (FlusherTask_run session_accumulating ''T'' 0) [] [(''T'', 0)]) =
     Inr (Some (Group [FromResult NullObject]))"
proof -
  have fr: "operations (FlusherTask_run session_accumulating ''T'' 0) = []"
    by (simp add: FlusherTask_run_def flushTablet_def addBoth_def sendRpcToTablet_def
        session_accumulating_def Let_def example_defs)
  show ?thesis
    using flush_groups_snapshot[of session_mixed "''T''" 1 "BatchDeferred 0" "\<lambda>_. True"
        "[(''T'', 0)]" "FlusherTask_run session_accumulating ''T'' 0" "[]"]
    by (simp add: session_mixed_def fr example_defs)
qed

text \<open>
  As first stated, the claim has the deferred of \<open>flush\<close> complete only after every
  batch copied by the synchronized block has been answered. Between that block and the
  loop the lock is free: when the timer of batch 0 runs there, it sends batch 0, the loop
  finds the batch gone, and \<open>flush\<close> returns a group that is complete although no send
  has completed, batch 0 is in flight and none of its operations has been fired.
\<close>

theorem flush_future_early_counterexample:
  "fst (flush_synchronized session_accumulating) = ([], [(''T'', 0)]) \<and>
   fst (flush_unlocked
          (FlusherTask_run (snd (flush_synchronized session_accumulating)) ''T'' 0)
          [] [(''T'', 0)]) = Inr (Some (Group [FromResult NullObject])) \<and>
   completed (\<lambda>_. False) (Group [FromResult NullObject]) \<and>
   clientCalls (snd (flush_unlocked
          (FlusherTask_run (snd (flush_synchronized session_accumulating)) ''T'' 0)
          [] [(''T'', 0)])) = [SendRpcToTabletCall (BatchRpc 0)] \<and>
   operationsInFlight (snd (flush_unlocked
          (FlusherTask_run (snd (flush_synchronized session_accumulating)) ''T'' 0)
          [] [(''T'', 0)])) = [(''T'', BatchDeferred 0)] \<and>
   fired (snd (flush_unlocked
          (FlusherTask_run (snd (flush_synchronized session_accumulating)) ''T'' 0)
          [] [(''T'', 0)])) = []"
  by (simp add: flush_synchronized_def flush_unlocked_def FlusherTask_run_def flushTablet_def
      addBoth_def sendRpcToTablet_def session_accumulating_def Let_def example_defs)

text \<open>
  Claim C10: on a session in which nothing accumulates, nothing is in flight and nothing
  is in lookup, \<open>flush\<close> changes nothing and \<open>close\<close> only stops the timer, and both
  return the group of no deferreds, which is not null and is complete from the start.
  In no session does \<open>flush\<close> or \<open>close\<close> return null.
\<close>

theorem flush_empty_session:
  "(operations s = [] \<and> operationsInFlight s = [] \<and> operationsInLookup s = [] \<longrightarrow>
      flush s = (Inr (Some (Group [])), s) \<and>
      close s = (Inr (Some (Group [])), s\<lparr>timerStopped := True\<rparr>) \<and>
      completed fin (Group [])) \<and>
   fst (flush s) \<noteq> Inr None \<and> fst (close s) \<noteq> Inr None"
proof (intro conjI impI)
  assume a: "operations s = [] \<and> operationsInFlight s = [] \<and> operationsInLookup s = []"
  then show "flush s = (Inr (Some (Group [])), s)"
    by (simp add: flush_def flush_synchronized_def flush_unlocked_def)
  from a show "close s = (Inr (Some (Group [])), s\<lparr>timerStopped := True\<rparr>)"
    by (simp add: close_def flush_def flush_synchronized_def flush_unlocked_def)
  show "completed fin (Group [])" by simp
next
  show "fst (flush s) \<noteq> Inr None" using flush_returns_group[of s] by auto
  show "fst (close s) \<noteq> Inr None"
    using flush_returns_group[of "s\<lparr>timerStopped := True\<rparr>"] by (auto simp: close_def)
qed

text \<open>The session as the constructor leaves it.\<close>

theorem flush_empty_session_witness:
  "flush KuduSession_new = (Inr (Some (Group [])), KuduSession_new) \<and>
   close KuduSession_new = (Inr (Some (Group [])), KuduSession_new\<lparr>timerStopped := True\<rparr>) \<and>
   completed (\<lambda>_. False) (Group [])"
  using flush_empty_session[of KuduSession_new "\<lambda>_. False"] by (simp add: KuduSession_new_def)

end
